theory Spec2Isabelle
  imports Main "HOL-Library.Word"
begin

section \<open>Targets, memory and failures\<close>

text \<open>
  The counters of \<^verbatim>\<open>intrusive_ptr_target\<close> are \<^verbatim>\<open>std::atomic<size_t>\<close>: 64-bit words
  whose addition and subtraction wrap around. A \<^verbatim>\<open>Target*\<close> is an address; the default
  \<^verbatim>\<open>NullType::singleton()\<close> is \<^verbatim>\<open>nullptr\<close>, address 0. The classes are templates over
  \<^verbatim>\<open>NullType\<close>, so their member functions take the sentinel as the argument \<open>null\<close>.

  The model is the sequential semantics of the code: one thread runs each member function
  to its end, so an atomic read-modify-write is a read followed by a write.
\<close>

type_synonym size_t = "64 word"
type_synonym addr = nat

record intrusive_ptr_target =
  refcount :: size_t
  weakcount :: size_t

text \<open>
  The two effects a target undergoes besides counting are recorded in a trace, in the order
  in which they happen: the call of the virtual hook \<^verbatim>\<open>release_resources()\<close> and the
  deallocation by \<^verbatim>\<open>delete target_\<close>.
\<close>

datatype event = Release_resources addr | Delete addr

record state =
  heap :: "addr \<rightharpoonup> intrusive_ptr_target"
  trace :: "event list"

text \<open>
  Ways in which a member function does not return. \<open>Error func msg\<close> is the end of the
  execution by \<^verbatim>\<open>coretenCheckFail\<close>, called from a check in the function \<open>func\<close> with
  the diagnostic message \<open>msg\<close>; \<open>Invalid_access p\<close> is the use of an address at which
  no target is allocated (undefined behaviour in C++). Nothing runs after either, so a
  failure carries no state.
\<close>

datatype failure =
    Error string string
  | Invalid_access addr

text \<open>
  Modelled from the spec: the body of \<^verbatim>\<open>coretenCheckFail\<close> is missing from the sources;
  Macros.h (line 135) has only the declaration
  \<^verbatim>\<open>[[noreturn]] void coretenCheckFail(func, file, line, msg)\<close>. The spec (section 7)
  says of a failed check: "invariant violations surface as an unconditional
  abort-with-message at the point of detection (no unwinding through caller frames)". So
  the call ends the execution where the check stands: the failure carries the name of that
  function and the message (file and line are left out), no destructor of a local or of a
  caller runs after it, and no caller gets control back. The comment above the declaration
  in Macros.h describes the macro as raising an exception instead ("it does NOT
  unceremoniously quit the process"); the model follows the spec.
\<close>

definition coretenCheckFail :: "string \<Rightarrow> string \<Rightarrow> failure" where
  "coretenCheckFail func msg = Error func msg"

text \<open>\<^verbatim>\<open>detail::if_empty\<close> and the message of \<^verbatim>\<open>CORETEN_ENFORCE_MSG\<close>.\<close>

definition if_empty :: "string \<Rightarrow> string \<Rightarrow> string" where
  "if_empty x y = (if x = [] then y else x)"

definition CORETEN_ENFORCE_MSG :: "string \<Rightarrow> string \<Rightarrow> string" where
  "CORETEN_ENFORCE_MSG cond msg =
     if_empty msg (''Expected '' @ cond @ '' to be true, but got false.  '')"

text \<open>
  \<^verbatim>\<open>CORETEN_ENFORCE(cond, msg)\<close> inside the function \<open>func\<close>: \<open>None\<close> when the condition
  holds and execution goes on, the failure otherwise. \<open>cond_text\<close> is the stringified
  condition.
\<close>

definition CORETEN_ENFORCE :: "bool \<Rightarrow> string \<Rightarrow> string \<Rightarrow> string \<Rightarrow> failure option" where
  "CORETEN_ENFORCE cond func cond_text msg =
     (if \<not> cond then Some (coretenCheckFail func (CORETEN_ENFORCE_MSG cond_text msg)) else None)"

text \<open>The diagnostic messages of the checks in intrusive_ptr.h.\<close>

definition strong_retain_msg :: string where
  "strong_retain_msg = ''intrusive_ptr: Cannot increase refcount after it reached zero.''"

definition weak_retain_msg :: string where
  "weak_retain_msg = ''weak_intrusive_ptr: Cannot increase weakcount after it reached zero.''"

definition make_msg :: string where
  "make_msg =
     ''intrusive_ptr: Newly-created target had non-zero refcounts. Does its ''
     @ ''constructor do something strange like incref or create ''
     @ ''an intrusive_ptr from `this`?''"

definition nonowning_msg :: string where
  "nonowning_msg = ''intrusive_ptr can only reclaim pointers that are owned by someone''"

definition weak_reclaim_msg :: string where
  "weak_reclaim_msg =
     ''weak_intrusive_ptr: Can only weak_intrusive_ptr::reclaim() owning pointers ''
     @ ''that were created using weak_intrusive_ptr::release().''"

definition destructor_strong_msg :: string where
  "destructor_strong_msg =
     ''Attempted to declass an intrusive_ptr_target that still has an intrusive_ptr to it''"

definition destructor_weak_msg :: string where
  "destructor_weak_msg =
     ''Attempted to declass an intrusive_ptr_target that still has a weak_intrusive_ptr to it''"

section \<open>Atomic counter operations\<close>

definition load_refcount :: "addr \<Rightarrow> state \<Rightarrow> failure + size_t" where
  "load_refcount p s =
     (case heap s p of None \<Rightarrow> Inl (Invalid_access p) | Some t \<Rightarrow> Inr (refcount t))"

definition load_weakcount :: "addr \<Rightarrow> state \<Rightarrow> failure + size_t" where
  "load_weakcount p s =
     (case heap s p of None \<Rightarrow> Inl (Invalid_access p) | Some t \<Rightarrow> Inr (weakcount t))"

definition store_refcount :: "addr \<Rightarrow> size_t \<Rightarrow> state \<Rightarrow> failure + state" where
  "store_refcount p v s =
     (case heap s p of
        None \<Rightarrow> Inl (Invalid_access p)
      | Some t \<Rightarrow> Inr (s\<lparr>heap := (heap s)(p \<mapsto> t\<lparr>refcount := v\<rparr>)\<rparr>))"

definition store_weakcount :: "addr \<Rightarrow> size_t \<Rightarrow> state \<Rightarrow> failure + state" where
  "store_weakcount p v s =
     (case heap s p of
        None \<Rightarrow> Inl (Invalid_access p)
      | Some t \<Rightarrow> Inr (s\<lparr>heap := (heap s)(p \<mapsto> t\<lparr>weakcount := v\<rparr>)\<rparr>))"

text \<open>\<^verbatim>\<open>refcount.fetch_add(1) + 1\<close> and its three siblings: the new value and the new state.\<close>

definition atomic_refcount_increment :: "addr \<Rightarrow> state \<Rightarrow> failure + size_t \<times> state" where
  "atomic_refcount_increment p s =
     (case heap s p of
        None \<Rightarrow> Inl (Invalid_access p)
      | Some t \<Rightarrow>
          Inr (refcount t + 1, s\<lparr>heap := (heap s)(p \<mapsto> t\<lparr>refcount := refcount t + 1\<rparr>)\<rparr>))"

definition atomic_weakcount_increment :: "addr \<Rightarrow> state \<Rightarrow> failure + size_t \<times> state" where
  "atomic_weakcount_increment p s =
     (case heap s p of
        None \<Rightarrow> Inl (Invalid_access p)
      | Some t \<Rightarrow>
          Inr (weakcount t + 1, s\<lparr>heap := (heap s)(p \<mapsto> t\<lparr>weakcount := weakcount t + 1\<rparr>)\<rparr>))"

definition atomic_refcount_decrement :: "addr \<Rightarrow> state \<Rightarrow> failure + size_t \<times> state" where
  "atomic_refcount_decrement p s =
     (case heap s p of
        None \<Rightarrow> Inl (Invalid_access p)
      | Some t \<Rightarrow>
          Inr (refcount t - 1, s\<lparr>heap := (heap s)(p \<mapsto> t\<lparr>refcount := refcount t - 1\<rparr>)\<rparr>))"

definition atomic_weakcount_decrement :: "addr \<Rightarrow> state \<Rightarrow> failure + size_t \<times> state" where
  "atomic_weakcount_decrement p s =
     (case heap s p of
        None \<Rightarrow> Inl (Invalid_access p)
      | Some t \<Rightarrow>
          Inr (weakcount t - 1, s\<lparr>heap := (heap s)(p \<mapsto> t\<lparr>weakcount := weakcount t - 1\<rparr>)\<rparr>))"

text \<open>
  \<^verbatim>\<open>refcount_.compare_exchange_weak(expected, desired)\<close>: whether it succeeded, the new
  value of \<open>expected\<close> and the new state. The weak form may fail although the values agree;
  \<open>spurious\<close> says whether it does so this time.
\<close>

definition compare_exchange_weak ::
  "bool \<Rightarrow> addr \<Rightarrow> size_t \<Rightarrow> size_t \<Rightarrow> state \<Rightarrow> failure + bool \<times> size_t \<times> state" where
  "compare_exchange_weak spurious p expected desired s =
     (case heap s p of
        None \<Rightarrow> Inl (Invalid_access p)
      | Some t \<Rightarrow>
          if refcount t = expected \<and> \<not> spurious
          then Inr (True, expected, s\<lparr>heap := (heap s)(p \<mapsto> t\<lparr>refcount := desired\<rparr>)\<rparr>)
          else Inr (False, refcount t, s))"

section \<open>The target's hook and destructor\<close>

text \<open>The virtual \<^verbatim>\<open>release_resources()\<close>: what it does is up to the subclass; it is recorded.\<close>

definition release_resources :: "addr \<Rightarrow> state \<Rightarrow> state" where
  "release_resources p s = s\<lparr>trace := trace s @ [Release_resources p]\<rparr>"

text \<open>
  \<^verbatim>\<open>delete target_\<close>: the destructor \<^verbatim>\<open>~intrusive_ptr_target()\<close> enforces that no strong
  and no weak handle is left, then the memory is given back.
\<close>

definition delete_target :: "addr \<Rightarrow> state \<Rightarrow> failure + state" where
  "delete_target p s =
     (case heap s p of
        None \<Rightarrow> Inl (Invalid_access p)
      | Some t \<Rightarrow>
         (case CORETEN_ENFORCE (refcount t = 0) ''~intrusive_ptr_target''
                 ''__refcount.load() == 0''
                 destructor_strong_msg of
            Some e \<Rightarrow> Inl e
          | None \<Rightarrow>
             (case CORETEN_ENFORCE (weakcount t = 0 \<or> weakcount t = 1) ''~intrusive_ptr_target''
                     ''__weakcount.load() == 0 || __weakcount.load() == 1''
                     destructor_weak_msg of
                Some e \<Rightarrow> Inl e
              | None \<Rightarrow> Inr (s\<lparr>heap := (heap s)(p := None), trace := trace s @ [Delete p]\<rparr>))))"

section \<open>The strong handle \<^verbatim>\<open>intrusive_ptr<Target, NullType>\<close>\<close>

text \<open>
  The class has the single field \<^verbatim>\<open>target_\<close>, read by \<^verbatim>\<open>get()\<close>. The private members
  \<^verbatim>\<open>retain_\<close> and \<^verbatim>\<open>reset_\<close> are named with the suffix \<open>_priv\<close> here.
\<close>

datatype intrusive_ptr = intrusive_ptr (get: addr)

definition intrusive_ptr_retain_priv :: "addr \<Rightarrow> intrusive_ptr \<Rightarrow> state \<Rightarrow> failure + state" where
  "intrusive_ptr_retain_priv null h s =
     (if get h \<noteq> null then
        (case atomic_refcount_increment (get h) s of
           Inl e \<Rightarrow> Inl e
         | Inr (new_refcount, s') \<Rightarrow>
            (case CORETEN_ENFORCE (new_refcount \<noteq> 1) ''retain_'' ''new_refcount != 1''
                    strong_retain_msg of
               Some e \<Rightarrow> Inl e
             | None \<Rightarrow> Inr s'))
      else Inr s)"

text \<open>
  \<^verbatim>\<open>reset_()\<close>: the handle afterwards and the new state. The two \<^verbatim>\<open>||\<close> operands are
  evaluated left to right, the second only when the first is false.
\<close>

definition intrusive_ptr_reset_priv ::
  "addr \<Rightarrow> intrusive_ptr \<Rightarrow> state \<Rightarrow> failure + intrusive_ptr \<times> state" where
  "intrusive_ptr_reset_priv null h s =
     (if get h \<noteq> null then
        (case atomic_refcount_decrement (get h) s of
           Inl e \<Rightarrow> Inl e
         | Inr (new_refcount, s1) \<Rightarrow>
            if new_refcount = 0 then
              (let s2 = release_resources (get h) s1 in
               case load_weakcount (get h) s2 of
                 Inl e \<Rightarrow> Inl e
               | Inr w \<Rightarrow>
                  if w = 1 then
                    (case delete_target (get h) s2 of
                       Inl e \<Rightarrow> Inl e
                     | Inr s3 \<Rightarrow> Inr (intrusive_ptr null, s3))
                  else
                    (case atomic_weakcount_decrement (get h) s2 of
                       Inl e \<Rightarrow> Inl e
                     | Inr (new_weakcount, s3) \<Rightarrow>
                        if new_weakcount = 0 then
                          (case delete_target (get h) s3 of
                             Inl e \<Rightarrow> Inl e
                           | Inr s4 \<Rightarrow> Inr (intrusive_ptr null, s4))
                        else Inr (intrusive_ptr null, s3)))
            else Inr (intrusive_ptr null, s1))
      else Inr (intrusive_ptr null, s))"

text \<open>The default constructor, the move constructor (new handle, source afterwards) and the
  copy constructor.\<close>

definition intrusive_ptr_default :: "addr \<Rightarrow> intrusive_ptr" where
  "intrusive_ptr_default null = intrusive_ptr null"

definition intrusive_ptr_move :: "addr \<Rightarrow> intrusive_ptr \<Rightarrow> intrusive_ptr \<times> intrusive_ptr" where
  "intrusive_ptr_move null rhs = (intrusive_ptr (get rhs), intrusive_ptr null)"

definition intrusive_ptr_copy ::
  "addr \<Rightarrow> intrusive_ptr \<Rightarrow> state \<Rightarrow> failure + intrusive_ptr \<times> state" where
  "intrusive_ptr_copy null rhs s =
     (let this = intrusive_ptr (get rhs) in
      case intrusive_ptr_retain_priv null this s of
        Inl e \<Rightarrow> Inl e
      | Inr s' \<Rightarrow> Inr (this, s'))"

text \<open>The destructor and the public \<^verbatim>\<open>reset()\<close> both call \<^verbatim>\<open>reset_()\<close>.\<close>

definition intrusive_ptr_destructor ::
  "addr \<Rightarrow> intrusive_ptr \<Rightarrow> state \<Rightarrow> failure + intrusive_ptr \<times> state" where
  "intrusive_ptr_destructor null h s = intrusive_ptr_reset_priv null h s"

definition intrusive_ptr_reset ::
  "addr \<Rightarrow> intrusive_ptr \<Rightarrow> state \<Rightarrow> failure + intrusive_ptr \<times> state" where
  "intrusive_ptr_reset null h s = intrusive_ptr_reset_priv null h s"

definition intrusive_ptr_defined :: "addr \<Rightarrow> intrusive_ptr \<Rightarrow> bool" where
  "intrusive_ptr_defined null h = (get h \<noteq> null)"

definition intrusive_ptr_use_count :: "addr \<Rightarrow> intrusive_ptr \<Rightarrow> state \<Rightarrow> failure + size_t" where
  "intrusive_ptr_use_count null h s =
     (if get h = null then Inr 0 else load_refcount (get h) s)"

definition intrusive_ptr_weak_use_count ::
  "addr \<Rightarrow> intrusive_ptr \<Rightarrow> state \<Rightarrow> failure + size_t" where
  "intrusive_ptr_weak_use_count null h s =
     (if get h = null then Inr 0 else load_weakcount (get h) s)"

text \<open>\<^verbatim>\<open>release()\<close> gives the address and the handle afterwards; \<^verbatim>\<open>reclaim\<close> wraps an
  address. Neither reads nor writes the target.\<close>

definition intrusive_ptr_release :: "addr \<Rightarrow> intrusive_ptr \<Rightarrow> addr \<times> intrusive_ptr" where
  "intrusive_ptr_release null h = (let result = get h in (result, intrusive_ptr null))"

definition intrusive_ptr_reclaim :: "addr \<Rightarrow> intrusive_ptr" where
  "intrusive_ptr_reclaim owning_ptr = intrusive_ptr owning_ptr"

text \<open>
  \<^verbatim>\<open>new Target(args...)\<close> inside \<^verbatim>\<open>make\<close>: \<open>p\<close> is the address the allocator returns.
  The base constructor \<^verbatim>\<open>intrusive_ptr_target()\<close> sets both counters to 0; \<open>ctor\<close> is what
  the constructor of the subclass does to the target after that (nothing, unless it does
  "something strange like incref").
\<close>

definition intrusive_ptr_target_ctor :: intrusive_ptr_target where
  "intrusive_ptr_target_ctor = \<lparr>refcount = 0, weakcount = 0\<rparr>"

definition new_Target ::
  "addr \<Rightarrow> (intrusive_ptr_target \<Rightarrow> intrusive_ptr_target) \<Rightarrow> state \<Rightarrow> state" where
  "new_Target p ctor s = s\<lparr>heap := (heap s)(p \<mapsto> ctor intrusive_ptr_target_ctor)\<rparr>"

definition make ::
  "addr \<Rightarrow> (intrusive_ptr_target \<Rightarrow> intrusive_ptr_target) \<Rightarrow> state
     \<Rightarrow> failure + intrusive_ptr \<times> state" where
  "make p ctor s =
     (let s0 = new_Target p ctor s; result = intrusive_ptr p in
      case load_refcount (get result) s0 of
        Inl e \<Rightarrow> Inl e
      | Inr r \<Rightarrow>
         (case (if r = 0 then load_weakcount (get result) s0 else Inr 0) of
            Inl e \<Rightarrow> Inl e
          | Inr w \<Rightarrow>
             (case CORETEN_ENFORCE (r = 0 \<and> w = 0) ''make''
                     ''result.target_->refcount_ == 0 && result.target_->weakcount_ == 0''
                     make_msg of
                Some e \<Rightarrow> Inl e
              | None \<Rightarrow>
                 (case store_refcount (get result) 1 s0 of
                    Inl e \<Rightarrow> Inl e
                  | Inr s1 \<Rightarrow>
                     (case store_weakcount (get result) 1 s1 of
                        Inl e \<Rightarrow> Inl e
                      | Inr s2 \<Rightarrow> Inr (result, s2))))))"


section \<open>The weak handle \<^verbatim>\<open>weak_intrusive_ptr<Target, NullType>\<close>\<close>

text \<open>Its single field \<^verbatim>\<open>target_\<close> is read by \<^verbatim>\<open>_unsafe_get_target()\<close>.\<close>

datatype weak_intrusive_ptr = weak_intrusive_ptr (unsafe_get_target: addr)

definition weak_intrusive_ptr_retain_priv ::
  "addr \<Rightarrow> weak_intrusive_ptr \<Rightarrow> state \<Rightarrow> failure + state" where
  "weak_intrusive_ptr_retain_priv null h s =
     (if unsafe_get_target h \<noteq> null then
        (case atomic_weakcount_increment (unsafe_get_target h) s of
           Inl e \<Rightarrow> Inl e
         | Inr (new_weakcount, s') \<Rightarrow>
            (case CORETEN_ENFORCE (new_weakcount \<noteq> 1) ''retain_'' ''new_weakcount != 1''
                    weak_retain_msg of
               Some e \<Rightarrow> Inl e
             | None \<Rightarrow> Inr s'))
      else Inr s)"

definition weak_intrusive_ptr_reset_priv ::
  "addr \<Rightarrow> weak_intrusive_ptr \<Rightarrow> state \<Rightarrow> failure + weak_intrusive_ptr \<times> state" where
  "weak_intrusive_ptr_reset_priv null h s =
     (if unsafe_get_target h \<noteq> null then
        (case atomic_weakcount_decrement (unsafe_get_target h) s of
           Inl e \<Rightarrow> Inl e
         | Inr (new_weakcount, s1) \<Rightarrow>
            if new_weakcount = 0 then
              (case delete_target (unsafe_get_target h) s1 of
                 Inl e \<Rightarrow> Inl e
               | Inr s2 \<Rightarrow> Inr (weak_intrusive_ptr null, s2))
            else Inr (weak_intrusive_ptr null, s1))
      else Inr (weak_intrusive_ptr null, s))"

text \<open>
  Construction from a strong handle, and the copy constructor. The first delegates to the
  private constructor before it calls \<^verbatim>\<open>retain_()\<close>; as a failed check ends the
  execution inside \<^verbatim>\<open>retain_()\<close>, the destructor of the half-built handle does not run.
\<close>

definition weak_intrusive_ptr_from_strong ::
  "addr \<Rightarrow> intrusive_ptr \<Rightarrow> state \<Rightarrow> failure + weak_intrusive_ptr \<times> state" where
  "weak_intrusive_ptr_from_strong null ptr s =
     (let this = weak_intrusive_ptr (get ptr) in
      case weak_intrusive_ptr_retain_priv null this s of
        Inl e \<Rightarrow> Inl e
      | Inr s' \<Rightarrow> Inr (this, s'))"


definition weak_intrusive_ptr_destructor ::
  "addr \<Rightarrow> weak_intrusive_ptr \<Rightarrow> state \<Rightarrow> failure + weak_intrusive_ptr \<times> state" where
  "weak_intrusive_ptr_destructor null h s = weak_intrusive_ptr_reset_priv null h s"

definition weak_intrusive_ptr_reset ::
  "addr \<Rightarrow> weak_intrusive_ptr \<Rightarrow> state \<Rightarrow> failure + weak_intrusive_ptr \<times> state" where
  "weak_intrusive_ptr_reset null h s = weak_intrusive_ptr_reset_priv null h s"

definition weak_intrusive_ptr_use_count ::
  "addr \<Rightarrow> weak_intrusive_ptr \<Rightarrow> state \<Rightarrow> failure + size_t" where
  "weak_intrusive_ptr_use_count null h s =
     (if unsafe_get_target h = null then Inr 0 else load_refcount (unsafe_get_target h) s)"

definition weak_intrusive_ptr_weak_use_count ::
  "addr \<Rightarrow> weak_intrusive_ptr \<Rightarrow> state \<Rightarrow> failure + size_t" where
  "weak_intrusive_ptr_weak_use_count null h s =
     (if unsafe_get_target h = null then Inr 0 else load_weakcount (unsafe_get_target h) s)"

definition expired :: "addr \<Rightarrow> weak_intrusive_ptr \<Rightarrow> state \<Rightarrow> failure + bool" where
  "expired null h s =
     (case weak_intrusive_ptr_use_count null h s of Inl e \<Rightarrow> Inl e | Inr c \<Rightarrow> Inr (c = 0))"

text \<open>
  The loop of \<^verbatim>\<open>lock()\<close>:
  \<^verbatim>\<open>do { if (refcount == 0) return intrusive_ptr(); }
  while (!target_->refcount_.compare_exchange_weak(refcount, refcount + 1));\<close>
  \<open>k\<close> is the number of times the exchange still fails spuriously; a failed exchange
  reloads \<open>refcount\<close>.
\<close>

function lock_loop ::
  "nat \<Rightarrow> addr \<Rightarrow> addr \<Rightarrow> size_t \<Rightarrow> state \<Rightarrow> failure + intrusive_ptr \<times> state" where
  "lock_loop k null p refcount_var s =
     (if refcount_var = 0 then Inr (intrusive_ptr_default null, s)
      else
        (case compare_exchange_weak (0 < k) p refcount_var (refcount_var + 1) s of
           Inl e \<Rightarrow> Inl e
         | Inr (ok, refcount_var', s') \<Rightarrow>
            if ok then Inr (intrusive_ptr p, s')
            else lock_loop (k - 1) null p refcount_var' s'))"
  by pat_completeness auto
termination
proof (relation "measure (\<lambda>(k, null, p, r, s).
          2 * k + (case heap s p of None \<Rightarrow> 0 | Some t \<Rightarrow> if refcount t = r then 0 else 1))")
  show "wf (measure (\<lambda>(k, null, p, r, s).
          2 * k + (case heap s p of None \<Rightarrow> 0 | Some t \<Rightarrow> if refcount t = r then 0 else 1)))"
    by simp
next
  fix k :: nat and null p :: addr and refcount_var :: size_t and s :: state
    and x2 :: "bool \<times> size_t \<times> state" and ok :: bool and y :: "size_t \<times> state"
    and refcount_var' :: size_t and s' :: state
  assume "refcount_var \<noteq> 0"
    and cas: "compare_exchange_weak (0 < k) p refcount_var (refcount_var + 1) s = Inr x2"
    and x2: "(ok, y) = x2" "(refcount_var', s') = y"
    and nok: "\<not> ok"
  from cas x2 nok obtain t where t: "heap s p = Some t"
    and r': "refcount_var' = refcount t" and s': "s' = s"
    and fail: "refcount t \<noteq> refcount_var \<or> 0 < k"
    by (auto simp: compare_exchange_weak_def split: option.splits if_splits)
  from fail show "((k - 1, null, p, refcount_var', s'), (k, null, p, refcount_var, s))
      \<in> measure (\<lambda>(k, null, p, r, s).
          2 * k + (case heap s p of None \<Rightarrow> 0 | Some t \<Rightarrow> if refcount t = r then 0 else 1))"
    by (auto simp: t r' s')
qed

declare lock_loop.simps [simp del]

definition lock ::
  "nat \<Rightarrow> addr \<Rightarrow> weak_intrusive_ptr \<Rightarrow> state \<Rightarrow> failure + intrusive_ptr \<times> state" where
  "lock k null h s =
     (case expired null h s of
        Inl e \<Rightarrow> Inl e
      | Inr True \<Rightarrow> Inr (intrusive_ptr_default null, s)
      | Inr False \<Rightarrow>
         (case load_refcount (unsafe_get_target h) s of
            Inl e \<Rightarrow> Inl e
          | Inr refcount_var \<Rightarrow> lock_loop k null (unsafe_get_target h) refcount_var s))"

definition weak_intrusive_ptr_release ::
  "addr \<Rightarrow> weak_intrusive_ptr \<Rightarrow> addr \<times> weak_intrusive_ptr" where
  "weak_intrusive_ptr_release null h =
     (let result = unsafe_get_target h in (result, weak_intrusive_ptr null))"

text \<open>
  The condition of \<^verbatim>\<open>weak_intrusive_ptr::reclaim\<close>, evaluated left to right with
  short-circuiting, so that the sentinel is never dereferenced.
\<close>

definition reclaim_cond :: "addr \<Rightarrow> addr \<Rightarrow> state \<Rightarrow> failure + bool" where
  "reclaim_cond null owning_weak_ptr s =
     (if owning_weak_ptr = null then Inr True
      else
        (case load_weakcount owning_weak_ptr s of
           Inl e \<Rightarrow> Inl e
         | Inr w \<Rightarrow>
            if 1 < w then Inr True
            else
              (case load_refcount owning_weak_ptr s of
                 Inl e \<Rightarrow> Inl e
               | Inr r \<Rightarrow>
                  if r = 0 then
                    (case load_weakcount owning_weak_ptr s of
                       Inl e \<Rightarrow> Inl e
                     | Inr w' \<Rightarrow> Inr (0 < w'))
                  else Inr False)))"

definition weak_intrusive_ptr_reclaim ::
  "addr \<Rightarrow> addr \<Rightarrow> state \<Rightarrow> failure + weak_intrusive_ptr" where
  "weak_intrusive_ptr_reclaim null owning_weak_ptr s =
     (case reclaim_cond null owning_weak_ptr s of
        Inl e \<Rightarrow> Inl e
      | Inr cond \<Rightarrow>
         (case CORETEN_ENFORCE cond ''reclaim''
                 (''owning_weak_ptr == NullType::singleton() || ''
                  @ ''owning_weak_ptr->weakcount_.load() > 1 || ''
                  @ ''(owning_weak_ptr->refcount_.load() == 0 && ''
                  @ ''owning_weak_ptr->weakcount_.load() > 0)'')
                 weak_reclaim_msg of
            Some e \<Rightarrow> Inl e
          | None \<Rightarrow> Inr (weak_intrusive_ptr owning_weak_ptr)))"

section \<open>The raw interface \<^verbatim>\<open>raw::intrusive_ptr\<close>\<close>

text \<open>These functions use the default null type, whose singleton is \<^verbatim>\<open>nullptr\<close>.\<close>

definition nullptr :: addr where
  "nullptr = 0"

definition incref :: "addr \<Rightarrow> state \<Rightarrow> failure + state" where
  "incref self s =
     (if self \<noteq> nullptr then
        (case atomic_refcount_increment self s of
           Inl e \<Rightarrow> Inl e
         | Inr (_, s') \<Rightarrow> Inr s')
      else Inr s)"

text \<open>
  \<^verbatim>\<open>make_weak\<close>: after the two \<^verbatim>\<open>release()\<close> calls the locals \<^verbatim>\<open>wptr\<close> and \<^verbatim>\<open>ptr\<close> go out
  of scope and their destructors run, in reverse order of construction.
\<close>

definition make_weak :: "addr \<Rightarrow> state \<Rightarrow> failure + addr \<times> state" where
  "make_weak self s =
     (let ptr = intrusive_ptr_reclaim self in
      case weak_intrusive_ptr_from_strong nullptr ptr s of
        Inl e \<Rightarrow> Inl e
      | Inr (wptr, s1) \<Rightarrow>
         (let ptr' = snd (intrusive_ptr_release nullptr ptr);
              (result, wptr') = weak_intrusive_ptr_release nullptr wptr
          in case weak_intrusive_ptr_destructor nullptr wptr' s1 of
               Inl e \<Rightarrow> Inl e
             | Inr (_, s2) \<Rightarrow>
                (case intrusive_ptr_destructor nullptr ptr' s2 of
                   Inl e \<Rightarrow> Inl e
                 | Inr (_, s3) \<Rightarrow> Inr (result, s3))))"

section \<open>Scenarios and auxiliary predicates\<close>

text \<open>
  A target to which at least one weak handle refers. The comment in \<^verbatim>\<open>reset_\<close> says: "As
  long as refcount>0, weakcount is one larger than the actual number of weak references",
  so a weak handle accounts for a weak count of at least 2 while the strong count is not 0,
  and of at least 1 afterwards.
\<close>

definition weak_unit_counted :: "intrusive_ptr_target \<Rightarrow> bool" where
  "weak_unit_counted t = ((if refcount t = 0 then 1 else 2) \<le> weakcount t)"

text \<open>\<open>n\<close> weak handles to the target at \<open>p\<close> are dropped, one after the other.\<close>

fun drop_weak_handles :: "nat \<Rightarrow> addr \<Rightarrow> addr \<Rightarrow> state \<Rightarrow> failure + state" where
  "drop_weak_handles 0 null p s = Inr s"
| "drop_weak_handles (Suc n) null p s =
     (case weak_intrusive_ptr_reset_priv null (weak_intrusive_ptr p) s of
        Inl e \<Rightarrow> Inl e
      | Inr (_, s') \<Rightarrow> drop_weak_handles n null p s')"

text \<open>A strong handle to \<open>p\<close> is dropped, and after it \<open>n\<close> weak handles.\<close>

definition drop_strong_then_weak :: "nat \<Rightarrow> addr \<Rightarrow> addr \<Rightarrow> state \<Rightarrow> failure + state" where
  "drop_strong_then_weak n null p s =
     (case intrusive_ptr_reset_priv null (intrusive_ptr p) s of
        Inl e \<Rightarrow> Inl e
      | Inr (_, s1) \<Rightarrow> drop_weak_handles n null p s1)"

section \<open>Basic facts\<close>

lemma atomic_refcount_increment_Some:
  "heap s p = Some t \<Longrightarrow>
   atomic_refcount_increment p s =
     Inr (refcount t + 1, s\<lparr>heap := (heap s)(p \<mapsto> t\<lparr>refcount := refcount t + 1\<rparr>)\<rparr>)"
  by (simp add: atomic_refcount_increment_def)

lemma atomic_weakcount_increment_Some:
  "heap s p = Some t \<Longrightarrow>
   atomic_weakcount_increment p s =
     Inr (weakcount t + 1, s\<lparr>heap := (heap s)(p \<mapsto> t\<lparr>weakcount := weakcount t + 1\<rparr>)\<rparr>)"
  by (simp add: atomic_weakcount_increment_def)

lemma atomic_refcount_decrement_Some:
  "heap s p = Some t \<Longrightarrow>
   atomic_refcount_decrement p s =
     Inr (refcount t - 1, s\<lparr>heap := (heap s)(p \<mapsto> t\<lparr>refcount := refcount t - 1\<rparr>)\<rparr>)"
  by (simp add: atomic_refcount_decrement_def)

lemma atomic_weakcount_decrement_Some:
  "heap s p = Some t \<Longrightarrow>
   atomic_weakcount_decrement p s =
     Inr (weakcount t - 1, s\<lparr>heap := (heap s)(p \<mapsto> t\<lparr>weakcount := weakcount t - 1\<rparr>)\<rparr>)"
  by (simp add: atomic_weakcount_decrement_def)

lemma load_refcount_Some: "heap s p = Some t \<Longrightarrow> load_refcount p s = Inr (refcount t)"
  by (simp add: load_refcount_def)

lemma load_weakcount_Some: "heap s p = Some t \<Longrightarrow> load_weakcount p s = Inr (weakcount t)"
  by (simp add: load_weakcount_def)

lemma enforce_holds: "c \<Longrightarrow> CORETEN_ENFORCE c f ct m = None"
  by (simp add: CORETEN_ENFORCE_def)

lemma enforce_fails:
  "\<not> c \<Longrightarrow> m \<noteq> [] \<Longrightarrow> CORETEN_ENFORCE c f ct m = Some (Error f m)"
  by (simp add: CORETEN_ENFORCE_def coretenCheckFail_def CORETEN_ENFORCE_MSG_def if_empty_def)

lemma msgs_nonempty:
  "strong_retain_msg \<noteq> []" "weak_retain_msg \<noteq> []" "make_msg \<noteq> []"
  "nonowning_msg \<noteq> []" "weak_reclaim_msg \<noteq> []"
  by (simp_all add: strong_retain_msg_def weak_retain_msg_def make_msg_def
      nonowning_msg_def weak_reclaim_msg_def)

lemma of_nat_size_t_eq_1: "m < 2 ^ 64 \<Longrightarrow> (of_nat m :: size_t) = 1 \<longleftrightarrow> m = 1"
  using word_of_nat_eq_iff [where ?'a = 64, of m 1]
  by (simp add: take_bit_nat_eq_self)

lemma of_nat_size_t_eq_0: "m < 2 ^ 64 \<Longrightarrow> (of_nat m :: size_t) = 0 \<longleftrightarrow> m = 0"
  using word_of_nat_eq_iff [where ?'a = 64, of m 0]
  by (simp add: take_bit_nat_eq_self)

section \<open>Dropping handles\<close>

lemma strong_reset_last_no_weak:
  assumes "p \<noteq> null" "heap s p = Some t" "refcount t = 1" "weakcount t = 1"
  shows "intrusive_ptr_reset_priv null (intrusive_ptr p) s =
     Inr (intrusive_ptr null,
          s\<lparr>heap := (heap s)(p := None), trace := trace s @ [Release_resources p, Delete p]\<rparr>)"
  using assms
  by (simp add: intrusive_ptr_reset_priv_def atomic_refcount_decrement_Some
      release_resources_def load_weakcount_def delete_target_def enforce_holds)

lemma strong_reset_last_with_weak:
  assumes "p \<noteq> null" "heap s p = Some t" "refcount t = 1" "weakcount t \<noteq> 1"
  shows "intrusive_ptr_reset_priv null (intrusive_ptr p) s =
     Inr (intrusive_ptr null,
          s\<lparr>heap := (heap s)(p \<mapsto> t\<lparr>refcount := 0, weakcount := weakcount t - 1\<rparr>),
            trace := trace s @ [Release_resources p]\<rparr>)"
  using assms
  by (simp add: intrusive_ptr_reset_priv_def atomic_refcount_decrement_Some
      release_resources_def load_weakcount_def atomic_weakcount_decrement_def)

lemma strong_reset_not_last:
  assumes "p \<noteq> null" "heap s p = Some t" "refcount t \<noteq> 1"
  shows "intrusive_ptr_reset_priv null (intrusive_ptr p) s =
     Inr (intrusive_ptr null, s\<lparr>heap := (heap s)(p \<mapsto> t\<lparr>refcount := refcount t - 1\<rparr>)\<rparr>)"
  using assms
  by (simp add: intrusive_ptr_reset_priv_def atomic_refcount_decrement_Some)

lemma weak_reset_not_last:
  assumes "p \<noteq> null" "heap s p = Some t" "weakcount t \<noteq> 1"
  shows "weak_intrusive_ptr_reset_priv null (weak_intrusive_ptr p) s =
     Inr (weak_intrusive_ptr null,
          s\<lparr>heap := (heap s)(p \<mapsto> t\<lparr>weakcount := weakcount t - 1\<rparr>)\<rparr>)"
  using assms
  by (simp add: weak_intrusive_ptr_reset_priv_def atomic_weakcount_decrement_Some)

lemma weak_reset_last:
  assumes "p \<noteq> null" "heap s p = Some t" "weakcount t = 1" "refcount t = 0"
  shows "weak_intrusive_ptr_reset_priv null (weak_intrusive_ptr p) s =
     Inr (weak_intrusive_ptr null,
          s\<lparr>heap := (heap s)(p := None), trace := trace s @ [Delete p]\<rparr>)"
  using assms
  by (simp add: weak_intrusive_ptr_reset_priv_def atomic_weakcount_decrement_Some
      delete_target_def enforce_holds)

lemma strong_reset_null:
  "intrusive_ptr_reset_priv null (intrusive_ptr null) s = Inr (intrusive_ptr null, s)"
  by (simp add: intrusive_ptr_reset_priv_def)

lemma weak_reset_null:
  "weak_intrusive_ptr_reset_priv null (weak_intrusive_ptr null) s =
     Inr (weak_intrusive_ptr null, s)"
  by (simp add: weak_intrusive_ptr_reset_priv_def)

lemma drop_weak_handles_some:
  assumes "p \<noteq> null"
  shows "heap s p = Some t \<Longrightarrow> refcount t = 0 \<Longrightarrow> weakcount t = of_nat m \<Longrightarrow>
     j < m \<Longrightarrow> m < 2 ^ 64 \<Longrightarrow>
     drop_weak_handles j null p s =
       Inr (s\<lparr>heap := (heap s)(p \<mapsto> t\<lparr>weakcount := of_nat (m - j)\<rparr>)\<rparr>)"
proof (induction j arbitrary: s t m)
  case 0
  then have "(heap s)(p \<mapsto> t\<lparr>weakcount := of_nat m\<rparr>) = heap s"
    by (simp add: fun_upd_idem)
  then show ?case by simp
next
  case (Suc j)
  from Suc.prems have m: "1 < m" by simp
  with Suc.prems have ne1: "weakcount t \<noteq> 1"
    by (simp add: of_nat_size_t_eq_1)
  let ?t' = "t\<lparr>weakcount := of_nat (m - 1)\<rparr>"
  let ?s' = "s\<lparr>heap := (heap s)(p \<mapsto> ?t')\<rparr>"
  from m Suc.prems have dec: "weakcount t - 1 = of_nat (m - 1)"
    by simp
  have step: "weak_intrusive_ptr_reset_priv null (weak_intrusive_ptr p) s =
      Inr (weak_intrusive_ptr null, ?s')"
    using weak_reset_not_last [OF assms Suc.prems(1) ne1] dec by simp
  have rest: "drop_weak_handles j null p ?s' =
      Inr (?s'\<lparr>heap := (heap ?s')(p \<mapsto> ?t'\<lparr>weakcount := of_nat (m - 1 - j)\<rparr>)\<rparr>)"
  proof (rule Suc.IH)
    show "heap ?s' p = Some ?t'" by simp
    show "refcount ?t' = 0" using Suc.prems by simp
    show "weakcount ?t' = of_nat (m - 1)" by simp
    show "j < m - 1" using Suc.prems by simp
    show "m - 1 < 2 ^ 64" using Suc.prems by simp
  qed
  have same: "?s'\<lparr>heap := (heap ?s')(p \<mapsto> ?t'\<lparr>weakcount := of_nat (m - 1 - j)\<rparr>)\<rparr> =
      s\<lparr>heap := (heap s)(p \<mapsto> t\<lparr>weakcount := of_nat (m - Suc j)\<rparr>)\<rparr>"
    by simp
  have "drop_weak_handles (Suc j) null p s = drop_weak_handles j null p ?s'"
    by (simp add: step)
  with rest same show ?case by (simp only:)
qed

lemma drop_weak_handles_add:
  "drop_weak_handles (a + b) null p s =
      (case drop_weak_handles a null p s of
         Inl e \<Rightarrow> Inl e
       | Inr s1 \<Rightarrow> drop_weak_handles b null p s1)"
  by (induction a arbitrary: s) (simp_all split: sum.splits prod.splits)

lemma drop_weak_handles_all:
  assumes "p \<noteq> null" "heap s p = Some t" "refcount t = 0" "weakcount t = of_nat m"
    "0 < m" "m < 2 ^ 64"
  shows "drop_weak_handles m null p s =
       Inr (s\<lparr>heap := (heap s)(p := None), trace := trace s @ [Delete p]\<rparr>)"
proof -
  obtain j where j: "m = Suc j" using assms(5) by (cases m) simp_all
  let ?t' = "t\<lparr>weakcount := 1\<rparr>"
  let ?s' = "s\<lparr>heap := (heap s)(p \<mapsto> ?t')\<rparr>"
  have first: "drop_weak_handles j null p s = Inr ?s'"
    using drop_weak_handles_some [OF assms(1-4), of j] assms(6) j by simp
  have last: "weak_intrusive_ptr_reset_priv null (weak_intrusive_ptr p) ?s' =
      Inr (weak_intrusive_ptr null, s\<lparr>heap := (heap s)(p := None), trace := trace s @ [Delete p]\<rparr>)"
    using weak_reset_last [of p null ?s' ?t'] assms(1,3) by simp
  have "drop_weak_handles (j + 1) null p s =
      Inr (s\<lparr>heap := (heap s)(p := None), trace := trace s @ [Delete p]\<rparr>)"
    unfolding drop_weak_handles_add first using last by simp
  then show ?thesis using j by simp
qed


section \<open>Facts about the factory and the weak reclaim\<close>

lemma make_zero_counters:
  assumes "refcount (ctor intrusive_ptr_target_ctor) = 0"
    and "weakcount (ctor intrusive_ptr_target_ctor) = 0"
  shows "make p ctor s =
     Inr (intrusive_ptr p,
          s\<lparr>heap := (heap s)(p \<mapsto> (ctor intrusive_ptr_target_ctor)\<lparr>refcount := 1, weakcount := 1\<rparr>)\<rparr>)"
  using assms
  by (simp add: make_def new_Target_def load_refcount_def load_weakcount_def
      store_refcount_def store_weakcount_def enforce_holds Let_def)

lemma make_nonzero_counters:
  assumes "refcount (ctor intrusive_ptr_target_ctor) \<noteq> 0 \<or>
    weakcount (ctor intrusive_ptr_target_ctor) \<noteq> 0"
  shows "make p ctor s = Inl (Error ''make'' make_msg)"
  using assms
  by (auto simp: make_def new_Target_def load_refcount_def load_weakcount_def
      enforce_fails msgs_nonempty Let_def)

lemma reclaim_cond_Some:
  "p \<noteq> null \<Longrightarrow> heap s p = Some t \<Longrightarrow>
   reclaim_cond null p s = Inr (1 < weakcount t \<or> refcount t = 0 \<and> 0 < weakcount t)"
  by (simp add: reclaim_cond_def load_weakcount_def load_refcount_def)

lemma reclaim_cond_null: "reclaim_cond null null s = Inr True"
  by (simp add: reclaim_cond_def)

lemma weak_unit_counted_iff:
  "weak_unit_counted t \<longleftrightarrow> 1 < weakcount t \<or> refcount t = 0 \<and> 0 < weakcount t"
  by (auto simp: weak_unit_counted_def word_le_nat_alt word_less_nat_alt)

lemma weak_reclaim_Some:
  "p \<noteq> null \<Longrightarrow> heap s p = Some t \<Longrightarrow>
   weak_intrusive_ptr_reclaim null p s =
     (if weak_unit_counted t then Inr (weak_intrusive_ptr p)
      else Inl (Error ''reclaim'' weak_reclaim_msg))"
  by (simp add: weak_intrusive_ptr_reclaim_def reclaim_cond_Some weak_unit_counted_iff
      enforce_holds enforce_fails msgs_nonempty)

lemma weak_reclaim_null:
  "weak_intrusive_ptr_reclaim null null s = Inr (weak_intrusive_ptr null)"
  by (simp add: weak_intrusive_ptr_reclaim_def reclaim_cond_null enforce_holds)


lemma strong_reset_live:
  assumes "heap s p = Some t"
  shows "\<exists>s'. intrusive_ptr_reset_priv null (intrusive_ptr p) s = Inr (intrusive_ptr null, s')"
proof -
  consider "p = null" | "p \<noteq> null" "refcount t \<noteq> 1"
    | "p \<noteq> null" "refcount t = 1" "weakcount t = 1"
    | "p \<noteq> null" "refcount t = 1" "weakcount t \<noteq> 1"
    by blast
  then show ?thesis
  proof cases
    case 1
    then show ?thesis by (simp add: strong_reset_null)
  next
    case 2
    then show ?thesis using strong_reset_not_last [OF _ assms] by blast
  next
    case 3
    then show ?thesis using strong_reset_last_no_weak [OF _ assms] by blast
  next
    case 4
    then show ?thesis using strong_reset_last_with_weak [OF _ assms] by blast
  qed
qed

lemma weak_reset_live:
  assumes "heap s p = Some t" "weak_unit_counted t"
  shows "\<exists>s'. weak_intrusive_ptr_reset_priv null (weak_intrusive_ptr p) s =
    Inr (weak_intrusive_ptr null, s')"
proof -
  from assms(2) have "weakcount t = 1 \<longrightarrow> refcount t = 0"
    by (auto simp: weak_unit_counted_iff)
  then consider "p = null" | "p \<noteq> null" "weakcount t \<noteq> 1"
    | "p \<noteq> null" "weakcount t = 1" "refcount t = 0"
    by blast
  then show ?thesis
  proof cases
    case 1
    then show ?thesis by (simp add: weak_reset_null)
  next
    case 2
    then show ?thesis using weak_reset_not_last [OF _ assms(1)] by blast
  next
    case 3
    then show ?thesis using weak_reset_last [OF _ assms(1)] by blast
  qed
qed

section \<open>Teardown in two phases\<close>

text \<open>
  Claim C1. Let the strong count of a target that is not the sentinel be 1 and let its only
  strong handle be dropped. Then \<^verbatim>\<open>release_resources()\<close> is called once. If the weak
  count is 1 (no weak handle is left), the target is deleted at once, right after the hook.
  If the weak count is not 1, the target is not deleted by the strong drop, which takes the
  phantom unit off the weak count; with \<open>n\<close> weak handles left (weak count \<open>n + 1\<close>),
  dropping fewer than \<open>n\<close> of them deletes nothing, and the drop of the \<open>n\<close>-th, which
  takes the weak count to 0, deletes the target, once.
\<close>

theorem two_phase_teardown:
  assumes "p \<noteq> null" and "heap s p = Some t" and "refcount t = 1"
  shows
    "(weakcount t = 1 \<longrightarrow>
        intrusive_ptr_reset_priv null (intrusive_ptr p) s =
          Inr (intrusive_ptr null,
               s\<lparr>heap := (heap s)(p := None),
                 trace := trace s @ [Release_resources p, Delete p]\<rparr>)) \<and>
     (weakcount t \<noteq> 1 \<longrightarrow>
        intrusive_ptr_reset_priv null (intrusive_ptr p) s =
          Inr (intrusive_ptr null,
               s\<lparr>heap := (heap s)(p \<mapsto> t\<lparr>refcount := 0, weakcount := weakcount t - 1\<rparr>),
                 trace := trace s @ [Release_resources p]\<rparr>)) \<and>
     (weakcount t = of_nat n + 1 \<and> 0 < n \<and> n < 2 ^ 64 \<longrightarrow>
        (\<forall>j<n. drop_strong_then_weak j null p s =
           Inr (s\<lparr>heap := (heap s)(p \<mapsto> t\<lparr>refcount := 0, weakcount := of_nat (n - j)\<rparr>),
                  trace := trace s @ [Release_resources p]\<rparr>)) \<and>
        drop_strong_then_weak n null p s =
           Inr (s\<lparr>heap := (heap s)(p := None),
                  trace := trace s @ [Release_resources p, Delete p]\<rparr>))"
proof (intro conjI impI allI)
  assume "weakcount t = 1"
  with assms show "intrusive_ptr_reset_priv null (intrusive_ptr p) s =
      Inr (intrusive_ptr null,
           s\<lparr>heap := (heap s)(p := None), trace := trace s @ [Release_resources p, Delete p]\<rparr>)"
    by (rule strong_reset_last_no_weak)
next
  assume "weakcount t \<noteq> 1"
  with assms show "intrusive_ptr_reset_priv null (intrusive_ptr p) s =
      Inr (intrusive_ptr null,
           s\<lparr>heap := (heap s)(p \<mapsto> t\<lparr>refcount := 0, weakcount := weakcount t - 1\<rparr>),
             trace := trace s @ [Release_resources p]\<rparr>)"
    by (rule strong_reset_last_with_weak)
next
  fix j
  assume n: "weakcount t = of_nat n + 1 \<and> 0 < n \<and> n < 2 ^ 64" and j: "j < n"
  let ?t1 = "t\<lparr>refcount := 0, weakcount := of_nat n\<rparr>"
  let ?s1 = "s\<lparr>heap := (heap s)(p \<mapsto> ?t1), trace := trace s @ [Release_resources p]\<rparr>"
  from n have "weakcount t \<noteq> 1" by (simp add: of_nat_size_t_eq_0)
  with assms n have first: "intrusive_ptr_reset_priv null (intrusive_ptr p) s =
      Inr (intrusive_ptr null, ?s1)"
    by (simp add: strong_reset_last_with_weak)
  have "drop_weak_handles j null p ?s1 =
      Inr (?s1\<lparr>heap := (heap ?s1)(p \<mapsto> ?t1\<lparr>weakcount := of_nat (n - j)\<rparr>)\<rparr>)"
    using assms(1) n j by (intro drop_weak_handles_some) simp_all
  with first show "drop_strong_then_weak j null p s =
      Inr (s\<lparr>heap := (heap s)(p \<mapsto> t\<lparr>refcount := 0, weakcount := of_nat (n - j)\<rparr>),
             trace := trace s @ [Release_resources p]\<rparr>)"
    by (simp add: drop_strong_then_weak_def)
next
  assume n: "weakcount t = of_nat n + 1 \<and> 0 < n \<and> n < 2 ^ 64"
  let ?t1 = "t\<lparr>refcount := 0, weakcount := of_nat n\<rparr>"
  let ?s1 = "s\<lparr>heap := (heap s)(p \<mapsto> ?t1), trace := trace s @ [Release_resources p]\<rparr>"
  from n have "weakcount t \<noteq> 1" by (simp add: of_nat_size_t_eq_0)
  with assms n have first: "intrusive_ptr_reset_priv null (intrusive_ptr p) s =
      Inr (intrusive_ptr null, ?s1)"
    by (simp add: strong_reset_last_with_weak)
  have "drop_weak_handles n null p ?s1 =
      Inr (?s1\<lparr>heap := (heap ?s1)(p := None), trace := trace ?s1 @ [Delete p]\<rparr>)"
    using assms(1) n by (intro drop_weak_handles_all [where t = ?t1]) simp_all
  with first show "drop_strong_then_weak n null p s =
      Inr (s\<lparr>heap := (heap s)(p := None),
             trace := trace s @ [Release_resources p, Delete p]\<rparr>)"
    by (simp add: drop_strong_then_weak_def)
qed

theorem two_phase_teardown_witness:
  "intrusive_ptr_reset_priv 0 (intrusive_ptr 7)
      \<lparr>heap = [7 \<mapsto> \<lparr>refcount = 1, weakcount = 1\<rparr>], trace = []\<rparr> =
     Inr (intrusive_ptr 0, \<lparr>heap = Map.empty, trace = [Release_resources 7, Delete 7]\<rparr>) \<and>
   drop_strong_then_weak 0 0 7 \<lparr>heap = [7 \<mapsto> \<lparr>refcount = 1, weakcount = 3\<rparr>], trace = []\<rparr> =
     Inr \<lparr>heap = [7 \<mapsto> \<lparr>refcount = 0, weakcount = 2\<rparr>], trace = [Release_resources 7]\<rparr> \<and>
   drop_strong_then_weak 1 0 7 \<lparr>heap = [7 \<mapsto> \<lparr>refcount = 1, weakcount = 3\<rparr>], trace = []\<rparr> =
     Inr \<lparr>heap = [7 \<mapsto> \<lparr>refcount = 0, weakcount = 1\<rparr>], trace = [Release_resources 7]\<rparr> \<and>
   drop_strong_then_weak 2 0 7 \<lparr>heap = [7 \<mapsto> \<lparr>refcount = 1, weakcount = 3\<rparr>], trace = []\<rparr> =
     Inr \<lparr>heap = Map.empty, trace = [Release_resources 7, Delete 7]\<rparr>"
proof -
  let ?s1 = "\<lparr>heap = [7 \<mapsto> \<lparr>refcount = 1, weakcount = 1\<rparr>], trace = []\<rparr>"
  let ?s3 = "\<lparr>heap = [7 \<mapsto> \<lparr>refcount = 1, weakcount = 3\<rparr>], trace = []\<rparr>"
  have no_weak: "intrusive_ptr_reset_priv 0 (intrusive_ptr 7) ?s1 =
      Inr (intrusive_ptr 0, \<lparr>heap = Map.empty, trace = [Release_resources 7, Delete 7]\<rparr>)"
    using two_phase_teardown [of 7 0 ?s1 "\<lparr>refcount = 1, weakcount = 1\<rparr>" 2] by simp
  have two_weak:
    "(\<forall>j<2. drop_strong_then_weak j 0 7 ?s3 =
        Inr \<lparr>heap = [7 \<mapsto> \<lparr>refcount = 0, weakcount = of_nat (2 - j)\<rparr>],
             trace = [Release_resources 7]\<rparr>) \<and>
     drop_strong_then_weak 2 0 7 ?s3 =
        Inr \<lparr>heap = Map.empty, trace = [Release_resources 7, Delete 7]\<rparr>"
    using two_phase_teardown [of 7 0 ?s3 "\<lparr>refcount = 1, weakcount = 3\<rparr>" 2] by simp
  from two_weak have "drop_strong_then_weak 0 0 7 ?s3 =
      Inr \<lparr>heap = [7 \<mapsto> \<lparr>refcount = 0, weakcount = of_nat (2 - 0)\<rparr>],
           trace = [Release_resources 7]\<rparr>"
    by (elim conjE allE [of _ 0] impE) simp_all
  moreover from two_weak have "drop_strong_then_weak 1 0 7 ?s3 =
      Inr \<lparr>heap = [7 \<mapsto> \<lparr>refcount = 0, weakcount = of_nat (2 - 1)\<rparr>],
           trace = [Release_resources 7]\<rparr>"
    by (elim conjE allE [of _ 1] impE) simp_all
  ultimately show ?thesis using no_weak two_weak by simp
qed

section \<open>Promotion by lock\<close>

lemma lock_loop_live:
  "heap s p = Some t \<Longrightarrow> refcount t \<noteq> 0 \<Longrightarrow>
   lock_loop k null p (refcount t) s =
     Inr (intrusive_ptr p, s\<lparr>heap := (heap s)(p \<mapsto> t\<lparr>refcount := refcount t + 1\<rparr>)\<rparr>)"
proof (induction k)
  case 0
  have cas: "compare_exchange_weak False p (refcount t) (refcount t + 1) s =
      Inr (True, refcount t, s\<lparr>heap := (heap s)(p \<mapsto> t\<lparr>refcount := refcount t + 1\<rparr>)\<rparr>)"
    using "0.prems" by (simp add: compare_exchange_weak_def)
  show ?case
    by (subst lock_loop.simps) (simp add: cas "0.prems")
next
  case (Suc k)
  have cas: "compare_exchange_weak True p (refcount t) (refcount t + 1) s =
      Inr (False, refcount t, s)"
    using Suc.prems by (simp add: compare_exchange_weak_def)
  have "lock_loop (Suc k) null p (refcount t) s = lock_loop k null p (refcount t) s"
    by (subst lock_loop.simps) (simp add: cas Suc.prems)
  with Suc.IH [OF Suc.prems] show ?case by simp
qed

text \<open>
  Claim C2. \<^verbatim>\<open>lock()\<close> on a weak handle that holds the sentinel, or whose target has strong
  count 0, returns the empty strong handle and leaves the state as it is. On a target whose
  strong count \<open>n\<close> is not 0 it returns a strong handle to the same address, and the strong
  count is \<open>n + 1\<close> (in \<^verbatim>\<open>size_t\<close>) afterwards; nothing else changes. This holds however
  often the weak compare-and-exchange fails spuriously (\<open>k\<close> times).
\<close>

theorem lock_promotes:
  "lock k null (weak_intrusive_ptr null) s = Inr (intrusive_ptr null, s) \<and>
   (p \<noteq> null \<and> heap s p = Some t \<and> refcount t = 0 \<longrightarrow>
      lock k null (weak_intrusive_ptr p) s = Inr (intrusive_ptr null, s)) \<and>
   (p \<noteq> null \<and> heap s p = Some t \<and> refcount t \<noteq> 0 \<longrightarrow>
      lock k null (weak_intrusive_ptr p) s =
        Inr (intrusive_ptr p, s\<lparr>heap := (heap s)(p \<mapsto> t\<lparr>refcount := refcount t + 1\<rparr>)\<rparr>) \<and>
      intrusive_ptr_defined null (intrusive_ptr p))"
  by (simp add: lock_def expired_def weak_intrusive_ptr_use_count_def load_refcount_def
      intrusive_ptr_default_def intrusive_ptr_defined_def lock_loop_live)

theorem lock_promotes_witness:
  "lock 3 0 (weak_intrusive_ptr 7) \<lparr>heap = [7 \<mapsto> \<lparr>refcount = 0, weakcount = 1\<rparr>], trace = []\<rparr> =
     Inr (intrusive_ptr 0, \<lparr>heap = [7 \<mapsto> \<lparr>refcount = 0, weakcount = 1\<rparr>], trace = []\<rparr>) \<and>
   lock 3 0 (weak_intrusive_ptr 7) \<lparr>heap = [7 \<mapsto> \<lparr>refcount = 2, weakcount = 2\<rparr>], trace = []\<rparr> =
     Inr (intrusive_ptr 7, \<lparr>heap = [7 \<mapsto> \<lparr>refcount = 3, weakcount = 2\<rparr>], trace = []\<rparr>)"
  using lock_promotes [of 3 0 "\<lparr>heap = [7 \<mapsto> \<lparr>refcount = 0, weakcount = 1\<rparr>], trace = []\<rparr>" 7
          "\<lparr>refcount = 0, weakcount = 1\<rparr>"]
        lock_promotes [of 3 0 "\<lparr>heap = [7 \<mapsto> \<lparr>refcount = 2, weakcount = 2\<rparr>], trace = []\<rparr>" 7
          "\<lparr>refcount = 2, weakcount = 2\<rparr>"]
  by simp

section \<open>The factory\<close>

text \<open>
  Claim C3. \<^verbatim>\<open>make\<close> allocates a target at the address \<open>p\<close> given by the allocator. If
  both counters of the constructed target are 0, it returns a handle to \<open>p\<close> and both
  counters are 1; they are written by \<open>store_refcount\<close> and \<open>store_weakcount\<close>, so the
  guard of \<^verbatim>\<open>retain_\<close> against the step from 0 to 1 is not met and \<^verbatim>\<open>make\<close> does not
  fail. If a counter is not 0 after construction, \<^verbatim>\<open>make\<close> fails with the error of its
  check and returns nothing.
\<close>

theorem make_sets_both_counters:
  "(refcount (ctor intrusive_ptr_target_ctor) = 0 \<and> weakcount (ctor intrusive_ptr_target_ctor) = 0 \<longrightarrow>
      make p ctor s =
        Inr (intrusive_ptr p,
             s\<lparr>heap := (heap s)(p \<mapsto> (ctor intrusive_ptr_target_ctor)\<lparr>refcount := 1, weakcount := 1\<rparr>)\<rparr>)) \<and>
   (refcount (ctor intrusive_ptr_target_ctor) \<noteq> 0 \<or> weakcount (ctor intrusive_ptr_target_ctor) \<noteq> 0 \<longrightarrow>
      make p ctor s = Inl (Error ''make'' make_msg))"
  using make_zero_counters [of ctor p s] make_nonzero_counters [of ctor p s] by blast

theorem make_sets_both_counters_witness:
  "make 7 id \<lparr>heap = Map.empty, trace = []\<rparr> =
     Inr (intrusive_ptr 7, \<lparr>heap = [7 \<mapsto> \<lparr>refcount = 1, weakcount = 1\<rparr>], trace = []\<rparr>) \<and>
   make 7 (\<lambda>t. t\<lparr>refcount := 1\<rparr>) \<lparr>heap = Map.empty, trace = []\<rparr> = Inl (Error ''make'' make_msg)"
  using make_sets_both_counters [of id 7 "\<lparr>heap = Map.empty, trace = []\<rparr>"]
        make_sets_both_counters [of "\<lambda>t. t\<lparr>refcount := 1\<rparr>" 7 "\<lparr>heap = Map.empty, trace = []\<rparr>"]
  by (simp add: intrusive_ptr_target_ctor_def)

section \<open>Copying a strong handle\<close>

text \<open>
  Claim C4. Copying a strong handle whose target is not the sentinel adds one to the strong
  count and changes nothing else, unless the strong count was 0: then the increment is the
  step from 0 to 1 and \<^verbatim>\<open>retain_\<close> fails with its check. Copying a handle that holds the
  sentinel returns such a handle, leaves the state as it is and does not fail.
\<close>

theorem copy_retains:
  "intrusive_ptr_copy null (intrusive_ptr null) s = Inr (intrusive_ptr null, s) \<and>
   (p \<noteq> null \<and> heap s p = Some t \<and> refcount t \<noteq> 0 \<longrightarrow>
      intrusive_ptr_copy null (intrusive_ptr p) s =
        Inr (intrusive_ptr p, s\<lparr>heap := (heap s)(p \<mapsto> t\<lparr>refcount := refcount t + 1\<rparr>)\<rparr>)) \<and>
   (p \<noteq> null \<and> heap s p = Some t \<and> refcount t = 0 \<longrightarrow>
      intrusive_ptr_copy null (intrusive_ptr p) s = Inl (Error ''retain_'' strong_retain_msg))"
  by (simp add: intrusive_ptr_copy_def intrusive_ptr_retain_priv_def
      atomic_refcount_increment_Some enforce_holds enforce_fails msgs_nonempty)

theorem copy_retains_witness:
  "intrusive_ptr_copy 0 (intrusive_ptr 7) \<lparr>heap = [7 \<mapsto> \<lparr>refcount = 1, weakcount = 1\<rparr>], trace = []\<rparr>
     = Inr (intrusive_ptr 7, \<lparr>heap = [7 \<mapsto> \<lparr>refcount = 2, weakcount = 1\<rparr>], trace = []\<rparr>) \<and>
   intrusive_ptr_copy 0 (intrusive_ptr 7) \<lparr>heap = [7 \<mapsto> \<lparr>refcount = 0, weakcount = 1\<rparr>], trace = []\<rparr>
     = Inl (Error ''retain_'' strong_retain_msg)"
  using copy_retains [of 0 "\<lparr>heap = [7 \<mapsto> \<lparr>refcount = 1, weakcount = 1\<rparr>], trace = []\<rparr>" 7
                         "\<lparr>refcount = 1, weakcount = 1\<rparr>"]
        copy_retains [of 0 "\<lparr>heap = [7 \<mapsto> \<lparr>refcount = 0, weakcount = 1\<rparr>], trace = []\<rparr>" 7
                         "\<lparr>refcount = 0, weakcount = 1\<rparr>"]
  by simp

section \<open>The raw interface\<close>

text \<open>
  Claim C10. \<^verbatim>\<open>raw::intrusive_ptr::incref\<close> with the null pointer returns at once: the state
  is the same, whatever the heap holds. With any other address of a target it adds one to
  the strong count and changes nothing else; there is no check, so a strong count of 0
  becomes 1 without a failure.
\<close>

theorem incref_guards_null_only:
  "incref nullptr s = Inr s \<and>
   (self \<noteq> nullptr \<and> heap s self = Some t \<longrightarrow>
      incref self s = Inr (s\<lparr>heap := (heap s)(self \<mapsto> t\<lparr>refcount := refcount t + 1\<rparr>)\<rparr>))"
  by (simp add: incref_def atomic_refcount_increment_Some)

theorem incref_guards_null_only_witness:
  "incref 7 \<lparr>heap = [7 \<mapsto> \<lparr>refcount = 0, weakcount = 0\<rparr>], trace = []\<rparr> =
     Inr \<lparr>heap = [7 \<mapsto> \<lparr>refcount = 1, weakcount = 0\<rparr>], trace = []\<rparr>"
  using incref_guards_null_only [of "\<lparr>heap = [7 \<mapsto> \<lparr>refcount = 0, weakcount = 0\<rparr>], trace = []\<rparr>" 7
          "\<lparr>refcount = 0, weakcount = 0\<rparr>"]
  by (simp add: nullptr_def)

text \<open>
  Claim C8. For an address \<open>self\<close> other than the null pointer whose target has a strong
  count above 0 and a weak count of at least 1, \<^verbatim>\<open>raw::intrusive_ptr::make_weak\<close> returns
  \<open>self\<close>, adds one to the weak count and leaves the strong count and all else as it was.
\<close>

theorem make_weak_adds_weak_unit:
  "self \<noteq> nullptr \<and> heap s self = Some t \<and> 0 < refcount t \<and> 1 \<le> weakcount t \<longrightarrow>
     make_weak self s =
       Inr (self, s\<lparr>heap := (heap s)(self \<mapsto> t\<lparr>weakcount := weakcount t + 1\<rparr>)\<rparr>)"
proof (intro impI, elim conjE)
  assume self: "self \<noteq> nullptr" and t: "heap s self = Some t" and w: "1 \<le> weakcount t"
  from w have "weakcount t \<noteq> 0" by auto
  then have "weakcount t + 1 \<noteq> 1" by simp
  with self t have "weak_intrusive_ptr_from_strong nullptr (intrusive_ptr self) s =
      Inr (weak_intrusive_ptr self,
           s\<lparr>heap := (heap s)(self \<mapsto> t\<lparr>weakcount := weakcount t + 1\<rparr>)\<rparr>)"
    by (simp add: weak_intrusive_ptr_from_strong_def weak_intrusive_ptr_retain_priv_def
        atomic_weakcount_increment_Some enforce_holds)
  then show "make_weak self s =
      Inr (self, s\<lparr>heap := (heap s)(self \<mapsto> t\<lparr>weakcount := weakcount t + 1\<rparr>)\<rparr>)"
    by (simp add: make_weak_def intrusive_ptr_reclaim_def intrusive_ptr_release_def
        weak_intrusive_ptr_release_def weak_intrusive_ptr_destructor_def
        intrusive_ptr_destructor_def weak_intrusive_ptr_reset_priv_def
        intrusive_ptr_reset_priv_def)
qed

theorem make_weak_adds_weak_unit_witness:
  "make_weak 7 \<lparr>heap = [7 \<mapsto> \<lparr>refcount = 2, weakcount = 1\<rparr>], trace = []\<rparr> =
     Inr (7, \<lparr>heap = [7 \<mapsto> \<lparr>refcount = 2, weakcount = 2\<rparr>], trace = []\<rparr>)"
  using make_weak_adds_weak_unit [of 7 "\<lparr>heap = [7 \<mapsto> \<lparr>refcount = 2, weakcount = 1\<rparr>], trace = []\<rparr>"
          "\<lparr>refcount = 2, weakcount = 1\<rparr>"]
  by (simp add: nullptr_def)


section \<open>Release and reclaim\<close>

text \<open>
  Claim C5. \<^verbatim>\<open>release()\<close> on a strong handle gives its address and leaves the handle at
  the sentinel; \<^verbatim>\<open>reclaim\<close> of that address is the handle as it was before. Neither
  function writes to the state, so both counters read the same through the old and the new
  handle, and no hook is called. The same holds for a weak handle that holds the sentinel
  or whose weak unit is counted in its target: \<^verbatim>\<open>weak_intrusive_ptr::reclaim\<close> passes its
  check and returns the handle as it was.
\<close>

theorem release_reclaim_round_trip:
  "(case intrusive_ptr_release null h of
      (p, h') \<Rightarrow>
        intrusive_ptr_reclaim p = h \<and> h' = intrusive_ptr null \<and>
        intrusive_ptr_use_count null (intrusive_ptr_reclaim p) s = intrusive_ptr_use_count null h s \<and>
        intrusive_ptr_weak_use_count null (intrusive_ptr_reclaim p) s =
          intrusive_ptr_weak_use_count null h s) \<and>
   (unsafe_get_target w = null \<or> heap s (unsafe_get_target w) = Some t \<and> weak_unit_counted t \<longrightarrow>
      (case weak_intrusive_ptr_release null w of
         (p, w') \<Rightarrow> weak_intrusive_ptr_reclaim null p s = Inr w \<and> w' = weak_intrusive_ptr null))"
proof (intro conjI impI)
  show "case intrusive_ptr_release null h of
      (p, h') \<Rightarrow>
        intrusive_ptr_reclaim p = h \<and> h' = intrusive_ptr null \<and>
        intrusive_ptr_use_count null (intrusive_ptr_reclaim p) s = intrusive_ptr_use_count null h s \<and>
        intrusive_ptr_weak_use_count null (intrusive_ptr_reclaim p) s =
          intrusive_ptr_weak_use_count null h s"
    by (simp add: intrusive_ptr_release_def intrusive_ptr_reclaim_def)
next
  assume legit: "unsafe_get_target w = null \<or>
    heap s (unsafe_get_target w) = Some t \<and> weak_unit_counted t"
  have "weak_intrusive_ptr_reclaim null (unsafe_get_target w) s = Inr w"
  proof (cases "unsafe_get_target w = null")
    case True
    then have "w = weak_intrusive_ptr null" by (cases w) simp
    then show ?thesis by (simp add: weak_reclaim_null)
  next
    case False
    with legit show ?thesis by (simp add: weak_reclaim_Some)
  qed
  then show "case weak_intrusive_ptr_release null w of
      (p, w') \<Rightarrow> weak_intrusive_ptr_reclaim null p s = Inr w \<and> w' = weak_intrusive_ptr null"
    by (simp add: weak_intrusive_ptr_release_def)
qed

theorem release_reclaim_round_trip_witness:
  "weak_intrusive_ptr_reclaim 0
      (fst (weak_intrusive_ptr_release 0 (weak_intrusive_ptr 7)))
      \<lparr>heap = [7 \<mapsto> \<lparr>refcount = 1, weakcount = 2\<rparr>], trace = []\<rparr> = Inr (weak_intrusive_ptr 7) \<and>
   snd (weak_intrusive_ptr_release 0 (weak_intrusive_ptr 7)) = weak_intrusive_ptr 0 \<and>
   intrusive_ptr_reclaim (fst (intrusive_ptr_release 0 (intrusive_ptr 7))) = intrusive_ptr 7"
  using release_reclaim_round_trip [where null = 0 and h = "intrusive_ptr 7"
          and s = "\<lparr>heap = [7 \<mapsto> \<lparr>refcount = 1, weakcount = 2\<rparr>], trace = []\<rparr>"
          and w = "weak_intrusive_ptr 7" and t = "\<lparr>refcount = 1, weakcount = 2\<rparr>"]
  by (simp add: weak_unit_counted_def split_beta)

text \<open>
  Claim C6, as the code has it. \<^verbatim>\<open>weak_intrusive_ptr::reclaim(p)\<close> fails exactly when
  \<open>p\<close> is not the sentinel, the weak count of its target is at most 1, and the strong
  count is not 0 or the weak count is 0. Otherwise (the sentinel; a weak count above 1; a
  strong count of 0 with a positive weak count) it returns a weak handle to \<open>p\<close>; it never
  writes to the state.
\<close>

theorem weak_reclaim_guard:
  "weak_intrusive_ptr_reclaim null null s = Inr (weak_intrusive_ptr null) \<and>
   (p \<noteq> null \<and> heap s p = Some t \<longrightarrow>
      weak_intrusive_ptr_reclaim null p s =
        (if weakcount t \<le> 1 \<and> (refcount t \<noteq> 0 \<or> weakcount t = 0)
         then Inl (Error ''reclaim'' weak_reclaim_msg)
         else Inr (weak_intrusive_ptr p)))"
proof -
  have "weak_unit_counted t \<longleftrightarrow> \<not> (weakcount t \<le> 1 \<and> (refcount t \<noteq> 0 \<or> weakcount t = 0))"
    by (auto simp: weak_unit_counted_iff word_le_nat_alt word_less_nat_alt unat_gt_0)
  then show ?thesis
    by (simp add: weak_reclaim_null weak_reclaim_Some)
qed

theorem weak_reclaim_guard_witness:
  "weak_intrusive_ptr_reclaim 0 7 \<lparr>heap = [7 \<mapsto> \<lparr>refcount = 1, weakcount = 1\<rparr>], trace = []\<rparr> =
     Inl (Error ''reclaim'' weak_reclaim_msg) \<and>
   weak_intrusive_ptr_reclaim 0 7 \<lparr>heap = [7 \<mapsto> \<lparr>refcount = 0, weakcount = 1\<rparr>], trace = []\<rparr> =
     Inr (weak_intrusive_ptr 7)"
  using weak_reclaim_guard [of 0 "\<lparr>heap = [7 \<mapsto> \<lparr>refcount = 1, weakcount = 1\<rparr>], trace = []\<rparr>" 7
          "\<lparr>refcount = 1, weakcount = 1\<rparr>"]
        weak_reclaim_guard [of 0 "\<lparr>heap = [7 \<mapsto> \<lparr>refcount = 0, weakcount = 1\<rparr>], trace = []\<rparr>" 7
          "\<lparr>refcount = 0, weakcount = 1\<rparr>"]
  by simp

text \<open>
  Claim C6 as stated fails for a target that was constructed and never wrapped (both
  counters 0): its weak count is at most 1 and its strong count is 0, so the claim has
  \<^verbatim>\<open>reclaim\<close> return, but the check fails.
\<close>

theorem weak_reclaim_unmanaged_counterexample:
  "weak_intrusive_ptr_reclaim 0 7 \<lparr>heap = [7 \<mapsto> \<lparr>refcount = 0, weakcount = 0\<rparr>], trace = []\<rparr> =
     Inl (Error ''reclaim'' weak_reclaim_msg) \<and>
   \<not> (weakcount \<lparr>refcount = 0, weakcount = 0\<rparr> \<le> 1 \<and> refcount \<lparr>refcount = 0, weakcount = 0\<rparr> \<noteq> 0)"
  by (simp add: weak_intrusive_ptr_reclaim_def reclaim_cond_def load_weakcount_def
      load_refcount_def enforce_fails msgs_nonempty)

section \<open>Reset\<close>

text \<open>
  Claim C9. \<^verbatim>\<open>reset()\<close> on a strong handle (holding the sentinel or a live target)
  returns and leaves the handle at the sentinel: \<^verbatim>\<open>defined()\<close> is false, \<^verbatim>\<open>use_count()\<close>
  is 0, and a second \<^verbatim>\<open>reset()\<close> changes nothing. The same holds for a weak handle that
  holds the sentinel or a unit counted in its target. \<^verbatim>\<open>reset()\<close> and the destructor on a
  handle that holds the sentinel leave the whole state as it is: no counter changes, no
  hook is called, nothing is deleted.
\<close>

theorem reset_leaves_sentinel:
  "(get h = null \<or> heap s (get h) \<noteq> None \<longrightarrow>
      (case intrusive_ptr_reset null h s of
         Inl e \<Rightarrow> False
       | Inr (h', s') \<Rightarrow>
           h' = intrusive_ptr null \<and> \<not> intrusive_ptr_defined null h' \<and>
           intrusive_ptr_use_count null h' s' = Inr 0 \<and>
           intrusive_ptr_reset null h' s' = Inr (h', s'))) \<and>
   (unsafe_get_target w = null \<or> heap s (unsafe_get_target w) = Some t \<and> weak_unit_counted t \<longrightarrow>
      (case weak_intrusive_ptr_reset null w s of
         Inl e \<Rightarrow> False
       | Inr (w', s') \<Rightarrow>
           w' = weak_intrusive_ptr null \<and>
           weak_intrusive_ptr_use_count null w' s' = Inr 0 \<and>
           weak_intrusive_ptr_reset null w' s' = Inr (w', s'))) \<and>
   intrusive_ptr_reset null (intrusive_ptr null) s = Inr (intrusive_ptr null, s) \<and>
   intrusive_ptr_destructor null (intrusive_ptr null) s = Inr (intrusive_ptr null, s) \<and>
   weak_intrusive_ptr_reset null (weak_intrusive_ptr null) s = Inr (weak_intrusive_ptr null, s) \<and>
   weak_intrusive_ptr_destructor null (weak_intrusive_ptr null) s =
     Inr (weak_intrusive_ptr null, s)"
proof (intro conjI impI)
  assume live: "get h = null \<or> heap s (get h) \<noteq> None"
  have "\<exists>s'. intrusive_ptr_reset_priv null h s = Inr (intrusive_ptr null, s')"
  proof (cases "get h = null")
    case True
    then have "h = intrusive_ptr null" by (cases h) simp
    then show ?thesis by (simp add: strong_reset_null)
  next
    case False
    with live obtain t' where "heap s (get h) = Some t'" by auto
    from strong_reset_live [OF this, of null] show ?thesis by simp
  qed
  then show "case intrusive_ptr_reset null h s of
         Inl e \<Rightarrow> False
       | Inr (h', s') \<Rightarrow>
           h' = intrusive_ptr null \<and> \<not> intrusive_ptr_defined null h' \<and>
           intrusive_ptr_use_count null h' s' = Inr 0 \<and>
           intrusive_ptr_reset null h' s' = Inr (h', s')"
    by (auto simp: intrusive_ptr_reset_def intrusive_ptr_defined_def
        intrusive_ptr_use_count_def strong_reset_null)
next
  assume live: "unsafe_get_target w = null \<or>
    heap s (unsafe_get_target w) = Some t \<and> weak_unit_counted t"
  have "\<exists>s'. weak_intrusive_ptr_reset_priv null w s = Inr (weak_intrusive_ptr null, s')"
  proof (cases "unsafe_get_target w = null")
    case True
    then have "w = weak_intrusive_ptr null" by (cases w) simp
    then show ?thesis by (simp add: weak_reset_null)
  next
    case False
    with live have "heap s (unsafe_get_target w) = Some t" "weak_unit_counted t" by auto
    from weak_reset_live [OF this, of null] show ?thesis by simp
  qed
  then show "case weak_intrusive_ptr_reset null w s of
         Inl e \<Rightarrow> False
       | Inr (w', s') \<Rightarrow>
           w' = weak_intrusive_ptr null \<and>
           weak_intrusive_ptr_use_count null w' s' = Inr 0 \<and>
           weak_intrusive_ptr_reset null w' s' = Inr (w', s')"
    by (auto simp: weak_intrusive_ptr_reset_def weak_intrusive_ptr_use_count_def weak_reset_null)
qed (simp_all add: intrusive_ptr_reset_def intrusive_ptr_destructor_def
    weak_intrusive_ptr_reset_def weak_intrusive_ptr_destructor_def strong_reset_null
    weak_reset_null)

theorem reset_leaves_sentinel_witness:
  "intrusive_ptr_reset 0 (intrusive_ptr 7)
      \<lparr>heap = [7 \<mapsto> \<lparr>refcount = 2, weakcount = 2\<rparr>], trace = []\<rparr> =
     Inr (intrusive_ptr 0, \<lparr>heap = [7 \<mapsto> \<lparr>refcount = 1, weakcount = 2\<rparr>], trace = []\<rparr>) \<and>
   weak_intrusive_ptr_reset 0 (weak_intrusive_ptr 7)
      \<lparr>heap = [7 \<mapsto> \<lparr>refcount = 2, weakcount = 2\<rparr>], trace = []\<rparr> =
     Inr (weak_intrusive_ptr 0, \<lparr>heap = [7 \<mapsto> \<lparr>refcount = 2, weakcount = 1\<rparr>], trace = []\<rparr>)"
proof -
  let ?s = "\<lparr>heap = [7 \<mapsto> \<lparr>refcount = 2, weakcount = 2\<rparr>], trace = []\<rparr>"
  have legit: "heap ?s (get (intrusive_ptr 7)) \<noteq> None"
    "heap ?s (unsafe_get_target (weak_intrusive_ptr 7)) = Some \<lparr>refcount = 2, weakcount = 2\<rparr>"
    "weak_unit_counted \<lparr>refcount = 2, weakcount = 2\<rparr>"
    by (simp_all add: weak_unit_counted_def)
  from reset_leaves_sentinel [where null = 0 and h = "intrusive_ptr 7" and s = ?s
      and w = "weak_intrusive_ptr 7" and t = "\<lparr>refcount = 2, weakcount = 2\<rparr>"] legit
  have "(case intrusive_ptr_reset 0 (intrusive_ptr 7) ?s of
           Inl e \<Rightarrow> False | Inr (h', s') \<Rightarrow> h' = intrusive_ptr 0) \<and>
        (case weak_intrusive_ptr_reset 0 (weak_intrusive_ptr 7) ?s of
           Inl e \<Rightarrow> False | Inr (w', s') \<Rightarrow> w' = weak_intrusive_ptr 0)"
    by (auto split: sum.splits)
  then show ?thesis
    by (simp add: intrusive_ptr_reset_def intrusive_ptr_reset_priv_def
        weak_intrusive_ptr_reset_def weak_intrusive_ptr_reset_priv_def
        atomic_refcount_decrement_def atomic_weakcount_decrement_def)
qed

section \<open>How failed checks end\<close>



end
